theory Spec2Isabelle
  imports Complex_Main "HOL-Library.Product_Lexorder" "HOL-Library.AList"
begin

section \<open>Strings\<close>

text \<open>
  Contents and paths are Python \<open>str\<close> values, modelled as \<^typ>\<open>string\<close>. The
  line boundaries of \<open>str.splitlines\<close> that fit in one byte are LF, CR, CR LF, VT, FF,
  FS, GS, RS and NEL; \<open>splitlines\<close> below is \<open>str.splitlines(keepends=True)\<close>.
\<close>

definition is_linebreak :: "char \<Rightarrow> bool" where
  "is_linebreak c = (c \<in> {CHR 0x0A, CHR 0x0D, CHR 0x0B, CHR 0x0C, CHR 0x1C, CHR 0x1D, CHR 0x1E, CHR 0x85})"

fun splitlines :: "string \<Rightarrow> string list" where
  "splitlines [] = []"
| "splitlines [c] = [[c]]"
| "splitlines (c # d # cs) =
     (if c = CHR 0x0D \<and> d = CHR 0x0A then [c, d] # splitlines cs
      else if is_linebreak c then [c] # splitlines (d # cs)
      else (case splitlines (d # cs) of [] \<Rightarrow> [[c]] | l # ls \<Rightarrow> (c # l) # ls))"

definition startswith :: "string \<Rightarrow> string \<Rightarrow> bool" where
  "startswith s pre = (take (length pre) s = pre)"

definition endswith :: "string \<Rightarrow> string \<Rightarrow> bool" where
  "endswith s suf = (length suf \<le> length s \<and> drop (length s - length suf) s = suf)"

section \<open>The line differ (\<open>difflib.unified_diff\<close>)\<close>

text \<open>
  \<open>_generate_diff\<close> calls \<open>difflib.unified_diff\<close> of the Python standard library.
  The definitions below follow \<open>difflib.SequenceMatcher\<close> as \<open>unified_diff\<close>
  builds it (\<open>isjunk=None\<close>, \<open>autojunk=True\<close>): \<open>b2j\<close> is the index of \<open>b\<close>
  after the popular elements are purged, \<open>scan_row\<close> and \<open>scan_rows\<close> are the two
  nested loops of \<open>find_longest_match\<close>, \<open>extend_back\<close> and \<open>extend_fwd\<close> its four
  \<open>while\<close> loops, \<open>matching_loop\<close> the queue loop of \<open>get_matching_blocks\<close>
  (the head of the list is the top of the stack) and \<open>collapse\<close> its merge of
  adjacent blocks. \<open>unified_diff\<close> is called without file dates, so its two header
  lines end after the file name; tags are a datatype instead of strings.
\<close>

datatype tag = Replace | Delete | Insert | Equal

definition b2j :: "'a list \<Rightarrow> 'a \<Rightarrow> nat list" where
  "b2j b elt =
     (let idxs = filter (\<lambda>i. b ! i = elt) [0..<length b]; n = length b
      in if n \<ge> 200 \<and> length idxs > n div 100 + 1 then [] else idxs)"

definition isbjunk :: "'a \<Rightarrow> bool" where
  "isbjunk elt = False"

fun scan_row :: "nat \<Rightarrow> nat \<Rightarrow> nat \<Rightarrow> (nat \<Rightarrow> nat) \<Rightarrow> nat list \<Rightarrow>
    (nat \<Rightarrow> nat) \<times> (nat \<times> nat \<times> nat) \<Rightarrow> (nat \<Rightarrow> nat) \<times> (nat \<times> nat \<times> nat)" where
  "scan_row i blo bhi j2len [] acc = acc"
| "scan_row i blo bhi j2len (j # js) (newj2len, besti, bestj, bestsize) =
     (if j < blo then scan_row i blo bhi j2len js (newj2len, besti, bestj, bestsize)
      else if j \<ge> bhi then (newj2len, besti, bestj, bestsize)
      else (let k = (if j = 0 then 0 else j2len (j - 1)) + 1
            in scan_row i blo bhi j2len js
                 (newj2len(j := k),
                  if k > bestsize then (i + 1 - k, j + 1 - k, k) else (besti, bestj, bestsize))))"

fun scan_rows :: "'a list \<Rightarrow> 'a list \<Rightarrow> nat \<Rightarrow> nat \<Rightarrow> nat list \<Rightarrow>
    (nat \<Rightarrow> nat) \<times> (nat \<times> nat \<times> nat) \<Rightarrow> nat \<times> nat \<times> nat" where
  "scan_rows a b blo bhi [] (j2len, best) = best"
| "scan_rows a b blo bhi (i # is) (j2len, best) =
     scan_rows a b blo bhi is (scan_row i blo bhi j2len (b2j b (a ! i)) (\<lambda>_. 0, best))"

function extend_back :: "('a \<Rightarrow> bool) \<Rightarrow> 'a list \<Rightarrow> 'a list \<Rightarrow> nat \<Rightarrow> nat \<Rightarrow> nat \<times> nat \<times> nat \<Rightarrow> nat \<times> nat \<times> nat" where
  "extend_back junk a b alo blo (besti, bestj, bestsize) =
     (if besti > alo \<and> bestj > blo \<and> junk (b ! (bestj - 1)) \<and> a ! (besti - 1) = b ! (bestj - 1)
      then extend_back junk a b alo blo (besti - 1, bestj - 1, bestsize + 1)
      else (besti, bestj, bestsize))"
  by pat_completeness auto
termination
  by (relation "measure (\<lambda>(junk, a, b, alo, blo, besti, bestj, bestsize). besti)") auto

declare extend_back.simps [simp del]

function extend_fwd :: "('a \<Rightarrow> bool) \<Rightarrow> 'a list \<Rightarrow> 'a list \<Rightarrow> nat \<Rightarrow> nat \<Rightarrow> nat \<times> nat \<times> nat \<Rightarrow> nat \<times> nat \<times> nat" where
  "extend_fwd junk a b ahi bhi (besti, bestj, bestsize) =
     (if besti + bestsize < ahi \<and> bestj + bestsize < bhi \<and> junk (b ! (bestj + bestsize))
         \<and> a ! (besti + bestsize) = b ! (bestj + bestsize)
      then extend_fwd junk a b ahi bhi (besti, bestj, bestsize + 1)
      else (besti, bestj, bestsize))"
  by pat_completeness auto
termination
  by (relation "measure (\<lambda>(junk, a, b, ahi, bhi, besti, bestj, bestsize). ahi - (besti + bestsize))") auto

declare extend_fwd.simps [simp del]

definition find_longest_match :: "'a list \<Rightarrow> 'a list \<Rightarrow> nat \<Rightarrow> nat \<Rightarrow> nat \<Rightarrow> nat \<Rightarrow> nat \<times> nat \<times> nat" where
  "find_longest_match a b alo ahi blo bhi =
     (let best = scan_rows a b blo bhi [alo..<ahi] (\<lambda>_. 0, (alo, blo, 0));
          best = extend_back (\<lambda>x. \<not> isbjunk x) a b alo blo best;
          best = extend_fwd (\<lambda>x. \<not> isbjunk x) a b ahi bhi best;
          best = extend_back isbjunk a b alo blo best;
          best = extend_fwd isbjunk a b ahi bhi best
      in best)"


text \<open>
  The invariants of the loops of \<open>find_longest_match\<close>: \<open>row_ok\<close> for the table
  \<open>j2len\<close> of the matches that end in the row before \<open>i\<close>, \<open>best_ok\<close> for the best
  match so far, which lies in the ranges searched and is a match. The queue loop of
  \<open>get_matching_blocks\<close> terminates because of them.
\<close>

definition row_ok :: "'a list \<Rightarrow> 'a list \<Rightarrow> nat \<Rightarrow> nat \<Rightarrow> nat \<Rightarrow> nat \<Rightarrow> (nat \<Rightarrow> nat) \<Rightarrow> bool" where
  "row_ok a b alo blo bhi i f =
     (\<forall>j. 0 < f j \<longrightarrow> f j \<le> i - alo \<and> f j \<le> j + 1 - blo \<and> j < bhi \<and> (\<forall>t<f j. a ! (i - 1 - t) = b ! (j - t)))"

definition best_ok :: "'a list \<Rightarrow> 'a list \<Rightarrow> nat \<Rightarrow> nat \<Rightarrow> nat \<Rightarrow> nat \<Rightarrow> nat \<times> nat \<times> nat \<Rightarrow> bool" where
  "best_ok a b alo ahi blo bhi m =
     (case m of (bi, bj, bk) \<Rightarrow>
        alo \<le> bi \<and> blo \<le> bj \<and> (if bk = 0 then bi = alo \<and> bj = blo else bi + bk \<le> ahi \<and> bj + bk \<le> bhi)
        \<and> (\<forall>t<bk. a ! (bi + t) = b ! (bj + t)))"

lemma row_ok_empty: "row_ok a b alo blo bhi i (\<lambda>_. 0)"
  by (simp add: row_ok_def)

lemma scan_row_ok:
  assumes "row_ok a b alo blo bhi i j2len" "alo \<le> i" "i < ahi"
    and "\<forall>j\<in>set js. b ! j = a ! i"
    and "row_ok a b alo blo bhi (Suc i) newj2len" "best_ok a b alo ahi blo bhi best"
  shows "row_ok a b alo blo bhi (Suc i) (fst (scan_row i blo bhi j2len js (newj2len, best)))
       \<and> best_ok a b alo ahi blo bhi (snd (scan_row i blo bhi j2len js (newj2len, best)))"
  using assms
proof (induction js arbitrary: newj2len best)
  case Nil
  then show ?case by simp
next
  case (Cons j js)
  obtain bi bj bk where best: "best = (bi, bj, bk)" by (cases best) auto
  show ?case
  proof (cases "j < blo")
    case True
    then show ?thesis using Cons best by simp
  next
    case lo: False
    show ?thesis
    proof (cases "j \<ge> bhi")
      case True
      then show ?thesis using Cons.prems lo best by simp
    next
      case hi: False
      define k where "k = (if j = 0 then 0 else j2len (j - 1)) + 1"
      have eq: "b ! j = a ! i" using Cons.prems(4) by simp
      have prev: "j \<noteq> 0 \<Longrightarrow> 0 < j2len (j - 1) \<Longrightarrow>
          j2len (j - 1) \<le> i - alo \<and> j2len (j - 1) \<le> j - blo \<and> (\<forall>t<j2len (j - 1). a ! (i - 1 - t) = b ! (j - 1 - t))"
        using Cons.prems(1) unfolding row_ok_def by (metis Suc_eq_plus1 Suc_pred' bot_nat_0.not_eq_extremum)
      have k1: "k \<le> Suc i - alo" using prev Cons.prems(2) unfolding k_def
        by (cases "j = 0"; cases "j2len (j - 1) = 0") auto
      have k2: "k \<le> j + 1 - blo" using prev lo unfolding k_def
        by (cases "j = 0"; cases "j2len (j - 1) = 0") auto
      have k3: "\<forall>t<k. a ! (i - t) = b ! (j - t)"
      proof (intro allI impI)
        fix t assume t: "t < k"
        show "a ! (i - t) = b ! (j - t)"
        proof (cases t)
          case 0
          then show ?thesis using eq by simp
        next
          case (Suc t')
          then have "j \<noteq> 0" "t' < j2len (j - 1)" using t unfolding k_def by (auto split: if_splits)
          then have "a ! (i - 1 - t') = b ! (j - 1 - t')" using prev by auto
          then show ?thesis using Suc by simp
        qed
      qed
      have row': "row_ok a b alo blo bhi (Suc i) (newj2len(j := k))"
        using Cons.prems(5) k1 k2 k3 hi unfolding row_ok_def by auto
      have kpos: "0 < k" unfolding k_def by simp
      have best': "best_ok a b alo ahi blo bhi (if k > bk then (i + 1 - k, j + 1 - k, k) else (bi, bj, bk))"
      proof (cases "k > bk")
        case True
        have "\<forall>t<k. a ! (i + 1 - k + t) = b ! (j + 1 - k + t)"
        proof (intro allI impI)
          fix t assume "t < k"
          then have "k - 1 - t < k" by simp
          from k3[rule_format, OF this] have "a ! (i - (k - 1 - t)) = b ! (j - (k - 1 - t))" .
          moreover have "i - (k - 1 - t) = i + 1 - k + t" using \<open>t < k\<close> k1 Cons.prems(2) by arith
          moreover have "j - (k - 1 - t) = j + 1 - k + t" using \<open>t < k\<close> k2 lo by arith
          ultimately show "a ! (i + 1 - k + t) = b ! (j + 1 - k + t)" by (simp only:)
        qed
        then show ?thesis using True k1 k2 kpos hi lo Cons.prems(2,3) unfolding best_ok_def by auto
      next
        case False
        then show ?thesis using Cons.prems(6) best by simp
      qed
      have step: "scan_row i blo bhi j2len (j # js) (newj2len, best)
          = scan_row i blo bhi j2len js (newj2len(j := k), if k > bk then (i + 1 - k, j + 1 - k, k) else (bi, bj, bk))"
        using lo hi best by (simp add: k_def Let_def)
      have rest: "\<forall>j\<in>set js. b ! j = a ! i" using Cons.prems(4) by simp
      show ?thesis unfolding step
        by (rule Cons.IH[OF Cons.prems(1) Cons.prems(2) Cons.prems(3) rest row' best'])
    qed
  qed
qed

lemma b2j_elem: "j \<in> set (b2j b x) \<Longrightarrow> b ! j = x \<and> j < length b"
  by (auto simp: b2j_def Let_def split: if_splits)

lemma scan_rows_ok:
  assumes "row_ok a b alo blo bhi i j2len" "alo \<le> i" "best_ok a b alo ahi blo bhi best"
  shows "best_ok a b alo ahi blo bhi (scan_rows a b blo bhi [i..<ahi] (j2len, best))"
  using assms
proof (induction "ahi - i" arbitrary: i j2len best)
  case 0
  then show ?case by simp
next
  case (Suc n)
  then have lt: "i < ahi" by simp
  let ?r = "scan_row i blo bhi j2len (b2j b (a ! i)) (\<lambda>_. 0, best)"
  have ok: "row_ok a b alo blo bhi (Suc i) (fst ?r) \<and> best_ok a b alo ahi blo bhi (snd ?r)"
    by (rule scan_row_ok[OF Suc.prems(1) Suc.prems(2) lt _ row_ok_empty Suc.prems(3)])
       (simp add: b2j_elem)
  have "scan_rows a b blo bhi [i..<ahi] (j2len, best) = scan_rows a b blo bhi [Suc i..<ahi] (fst ?r, snd ?r)"
    using lt by (simp add: upt_conv_Cons)
  moreover have "best_ok a b alo ahi blo bhi (scan_rows a b blo bhi [Suc i..<ahi] (fst ?r, snd ?r))"
    by (rule Suc.hyps(1)) (use Suc.hyps(2) ok Suc.prems(2) in auto)
  ultimately show ?case by simp
qed

lemma extend_back_ok:
  "best_ok a b alo ahi blo bhi m \<Longrightarrow> best_ok a b alo ahi blo bhi (extend_back junk a b alo blo m)"
proof (induction junk a b alo blo m rule: extend_back.induct)
  case (1 junk a b alo blo besti bestj bestsize)
  show ?case
  proof (cases "besti > alo \<and> bestj > blo \<and> junk (b ! (bestj - 1)) \<and> a ! (besti - 1) = b ! (bestj - 1)")
    case True
    have "best_ok a b alo ahi blo bhi (besti - 1, bestj - 1, bestsize + 1)"
      using "1.prems" True unfolding best_ok_def
      by (auto simp: less_Suc_eq_0_disj split: if_splits)
    then show ?thesis using "1.IH" True by (subst extend_back.simps) simp
  next
    case False
    then have "extend_back junk a b alo blo (besti, bestj, bestsize) = (besti, bestj, bestsize)"
      by (subst extend_back.simps) auto
    then show ?thesis using "1.prems" by simp
  qed
qed

lemma extend_fwd_ok:
  "best_ok a b alo ahi blo bhi m \<Longrightarrow> best_ok a b alo ahi blo bhi (extend_fwd junk a b ahi bhi m)"
proof (induction junk a b ahi bhi m rule: extend_fwd.induct)
  case (1 junk a b ahi bhi besti bestj bestsize)
  show ?case
  proof (cases "besti + bestsize < ahi \<and> bestj + bestsize < bhi \<and> junk (b ! (bestj + bestsize))
         \<and> a ! (besti + bestsize) = b ! (bestj + bestsize)")
    case True
    have "best_ok a b alo ahi blo bhi (besti, bestj, bestsize + 1)"
      using "1.prems" True unfolding best_ok_def
      by (auto simp: less_Suc_eq split: if_splits)
    then show ?thesis using "1.IH" True by (subst extend_fwd.simps) simp
  next
    case False
    then have "extend_fwd junk a b ahi bhi (besti, bestj, bestsize) = (besti, bestj, bestsize)"
      by (subst extend_fwd.simps) auto
    then show ?thesis using "1.prems" by simp
  qed
qed

lemma find_longest_match_ok:
  "best_ok a b alo ahi blo bhi (find_longest_match a b alo ahi blo bhi)"
  unfolding find_longest_match_def Let_def
  by (intro extend_fwd_ok extend_back_ok scan_rows_ok row_ok_empty) (simp_all add: best_ok_def)


lemma find_longest_match_bounds:
  "find_longest_match a b alo ahi blo bhi = (i, j, k) \<Longrightarrow> k \<noteq> 0 \<Longrightarrow> alo \<le> i \<and> i + k \<le> ahi"
  using find_longest_match_ok[of a b alo ahi blo bhi] by (simp add: best_ok_def)

function matching_loop :: "'a list \<Rightarrow> 'a list \<Rightarrow> (nat \<times> nat \<times> nat \<times> nat) list \<Rightarrow> (nat \<times> nat \<times> nat) list
    \<Rightarrow> (nat \<times> nat \<times> nat) list" where
  "matching_loop a b [] matching_blocks = matching_blocks"
| "matching_loop a b ((alo, ahi, blo, bhi) # queue) matching_blocks =
     (case find_longest_match a b alo ahi blo bhi of (i, j, k) \<Rightarrow>
        if k \<noteq> 0
        then matching_loop a b
               ((if i + k < ahi \<and> j + k < bhi then [(i + k, ahi, j + k, bhi)] else []) @
                (if alo < i \<and> blo < j then [(alo, i, blo, j)] else []) @ queue)
               (matching_blocks @ [(i, j, k)])
        else matching_loop a b queue matching_blocks)"
  by pat_completeness auto
termination
  by (relation "measure (\<lambda>(a, b, queue, blocks). \<Sum>(alo, ahi, blo, bhi)\<leftarrow>queue. 2 * (ahi - alo) + 1)")
     (auto dest!: find_longest_match_bounds find_longest_match_bounds[OF sym])

declare matching_loop.simps [simp del]

fun collapse :: "nat \<times> nat \<times> nat \<Rightarrow> (nat \<times> nat \<times> nat) list \<Rightarrow> (nat \<times> nat \<times> nat) list" where
  "collapse (i1, j1, k1) [] = (if k1 \<noteq> 0 then [(i1, j1, k1)] else [])"
| "collapse (i1, j1, k1) ((i2, j2, k2) # ms) =
     (if i1 + k1 = i2 \<and> j1 + k1 = j2 then collapse (i1, j1, k1 + k2) ms
      else (if k1 \<noteq> 0 then [(i1, j1, k1)] else []) @ collapse (i2, j2, k2) ms)"

definition get_matching_blocks :: "'a list \<Rightarrow> 'a list \<Rightarrow> (nat \<times> nat \<times> nat) list" where
  "get_matching_blocks a b =
     collapse (0, 0, 0) (sort (matching_loop a b [(0, length a, 0, length b)] []))
       @ [(length a, length b, 0)]"

type_synonym opcode = "tag \<times> nat \<times> nat \<times> nat \<times> nat"

fun opcodes_loop :: "nat \<Rightarrow> nat \<Rightarrow> (nat \<times> nat \<times> nat) list \<Rightarrow> opcode list" where
  "opcodes_loop i j [] = []"
| "opcodes_loop i j ((ai, bj, sz) # ms) =
     (if i < ai \<and> j < bj then [(Replace, i, ai, j, bj)]
      else if i < ai then [(Delete, i, ai, j, bj)]
      else if j < bj then [(Insert, i, ai, j, bj)]
      else [])
     @ (if sz \<noteq> 0 then [(Equal, ai, ai + sz, bj, bj + sz)] else [])
     @ opcodes_loop (ai + sz) (bj + sz) ms"

definition get_opcodes :: "'a list \<Rightarrow> 'a list \<Rightarrow> opcode list" where
  "get_opcodes a b = opcodes_loop 0 0 (get_matching_blocks a b)"

fun group_loop :: "nat \<Rightarrow> opcode list \<Rightarrow> opcode list \<Rightarrow> opcode list list" where
  "group_loop n [] grp =
     (if grp \<noteq> [] \<and> \<not> (length grp = 1 \<and> fst (hd grp) = Equal) then [grp] else [])"
| "group_loop n ((tag, i1, i2, j1, j2) # codes) grp =
     (if tag = Equal \<and> i2 - i1 > n + n
      then (grp @ [(tag, i1, min i2 (i1 + n), j1, min j2 (j1 + n))])
             # group_loop n codes [(tag, max i1 (i2 - n), i2, max j1 (j2 - n), j2)]
      else group_loop n codes (grp @ [(tag, i1, i2, j1, j2)]))"

definition get_grouped_opcodes :: "'a list \<Rightarrow> 'a list \<Rightarrow> nat \<Rightarrow> opcode list list" where
  "get_grouped_opcodes a b n =
     (let codes = get_opcodes a b;
          codes = (if codes = [] then [(Equal, 0, 1, 0, 1)] else codes);
          codes = (case hd codes of (tag, i1, i2, j1, j2) \<Rightarrow>
                     if tag = Equal then (tag, max i1 (i2 - n), i2, max j1 (j2 - n), j2) # tl codes
                     else codes);
          codes = (case last codes of (tag, i1, i2, j1, j2) \<Rightarrow>
                     if tag = Equal then butlast codes @ [(tag, i1, min i2 (i1 + n), j1, min j2 (j1 + n))]
                     else codes)
      in group_loop n codes [])"

text \<open>
  The text of the diff: decimal numbers, \<open>_format_range_unified\<close>, the lines of one
  opcode and of one hunk, and \<open>unified_diff\<close> for the keyword arguments that
  \<open>_generate_diff\<close> passes. \<open>slice xs i j\<close> is \<open>xs[i:j]\<close> for \<open>i \<le> j\<close>.
\<close>

fun str_of_nat :: "nat \<Rightarrow> string" where
  "str_of_nat n =
     (if n < 10 then [char_of (48 + n)] else str_of_nat (n div 10) @ [char_of (48 + n mod 10)])"

declare str_of_nat.simps [simp del]

definition format_range_unified :: "nat \<Rightarrow> nat \<Rightarrow> string" where
  "format_range_unified start stop =
     (let beginning = start + 1; len = stop - start
      in if len = 1 then str_of_nat beginning
         else str_of_nat (if len = 0 then beginning - 1 else beginning) @ '','' @ str_of_nat len)"

definition slice :: "'a list \<Rightarrow> nat \<Rightarrow> nat \<Rightarrow> 'a list" where
  "slice xs i j = take (j - i) (drop i xs)"

definition opcode_lines :: "string list \<Rightarrow> string list \<Rightarrow> opcode \<Rightarrow> string list" where
  "opcode_lines a b c =
     (case c of (tag, i1, i2, j1, j2) \<Rightarrow>
        if tag = Equal then map ((#) CHR '' '') (slice a i1 i2)
        else (if tag = Replace \<or> tag = Delete then map ((#) CHR ''-'') (slice a i1 i2) else [])
           @ (if tag = Replace \<or> tag = Insert then map ((#) CHR ''+'') (slice b j1 j2) else []))"

definition hunk_lines :: "string list \<Rightarrow> string list \<Rightarrow> string \<Rightarrow> opcode list \<Rightarrow> string list" where
  "hunk_lines a b lineterm grp =
     (let file1_range = format_range_unified (fst (snd (hd grp))) (fst (snd (snd (last grp))));
          file2_range = format_range_unified (fst (snd (snd (snd (hd grp))))) (snd (snd (snd (snd (last grp)))))
      in (''@@ -'' @ file1_range @ '' +'' @ file2_range @ '' @@'' @ lineterm)
           # concat (map (opcode_lines a b) grp))"

definition unified_diff :: "string list \<Rightarrow> string list \<Rightarrow> string \<Rightarrow> string \<Rightarrow> nat \<Rightarrow> string \<Rightarrow> string list" where
  "unified_diff a b fromfile tofile n lineterm =
     (let groups = get_grouped_opcodes a b n
      in if groups = [] then []
         else (''--- '' @ fromfile @ lineterm) # (''+++ '' @ tofile @ lineterm)
                # concat (map (hunk_lines a b lineterm) groups))"

definition generate_diff :: "string \<Rightarrow> string \<Rightarrow> string \<Rightarrow> string" where
  "generate_diff old_content new_content path =
     (let old_lines = splitlines old_content;
          new_lines = splitlines new_content;
          diff_lines = unified_diff old_lines new_lines path path 0 [];
          diff_lines = (if length diff_lines > 2
                        then filter (\<lambda>line. \<not> startswith line ''@@'') (drop 2 diff_lines)
                        else diff_lines)
      in concat diff_lines)"



section \<open>Applying a diff\<close>














section \<open>Paths (\<open>os.path\<close> on POSIX)\<close>

text \<open>
  \<open>str_split\<close> is \<open>str.split(sep)\<close> for a one-character separator, \<open>str_join\<close> is
  \<open>sep.join\<close>. \<open>normpath\<close>, \<open>abspath\<close>, \<open>relpath\<close> and \<open>basename\<close> follow
  \<open>posixpath\<close>; the working directory that \<open>abspath\<close> reads is the argument \<open>wd\<close>.
  \<open>relpath\<close> is given non-empty paths (the paths of file system events).
\<close>

fun str_split :: "char \<Rightarrow> string \<Rightarrow> string list" where
  "str_split sep [] = [[]]"
| "str_split sep (c # cs) =
     (if c = sep then [] # str_split sep cs
      else (case str_split sep cs of [] \<Rightarrow> [[c]] | l # ls \<Rightarrow> (c # l) # ls))"

fun str_join :: "string \<Rightarrow> string list \<Rightarrow> string" where
  "str_join sep [] = []"
| "str_join sep [x] = x"
| "str_join sep (x # y # ys) = x @ sep @ str_join sep (y # ys)"

definition basename :: "string \<Rightarrow> string" where
  "basename p = last (str_split CHR ''/'' p)"

definition isabs :: "string \<Rightarrow> bool" where
  "isabs p = startswith p ''/''"

definition path_join :: "string \<Rightarrow> string \<Rightarrow> string" where
  "path_join a p =
     (if startswith p ''/'' then p
      else if a = [] \<or> endswith a ''/'' then a @ p
      else a @ ''/'' @ p)"

definition normpath_step :: "nat \<Rightarrow> string \<Rightarrow> string list \<Rightarrow> string list" where
  "normpath_step initial_slashes part new_comps =
     (if part = [] \<or> part = ''.'' then new_comps
      else if part \<noteq> ''..'' \<or> (initial_slashes = 0 \<and> new_comps = [])
                \<or> (new_comps \<noteq> [] \<and> last new_comps = ''..'')
           then new_comps @ [part]
      else if new_comps \<noteq> [] then butlast new_comps
      else new_comps)"

definition normpath :: "string \<Rightarrow> string" where
  "normpath p =
     (if p = [] then ''.''
      else (let initial_slashes =
                  (if startswith p ''/''
                   then (if startswith p ''//'' \<and> \<not> startswith p ''///'' then 2 else 1)
                   else (0::nat));
                comps = fold (normpath_step initial_slashes) (str_split CHR ''/'' p) [];
                q = replicate initial_slashes CHR ''/'' @ str_join ''/'' comps
            in if q = [] then ''.'' else q))"

definition abspath :: "string \<Rightarrow> string \<Rightarrow> string" where
  "abspath wd p = normpath (if isabs p then p else path_join wd p)"

fun commonprefix :: "'a list \<Rightarrow> 'a list \<Rightarrow> 'a list" where
  "commonprefix (x # xs) (y # ys) = (if x = y then x # commonprefix xs ys else [])"
| "commonprefix xs ys = []"

definition relpath :: "string \<Rightarrow> string \<Rightarrow> string \<Rightarrow> string" where
  "relpath wd p start =
     (let start_list = filter (\<lambda>x. x \<noteq> []) (str_split CHR ''/'' (abspath wd start));
          path_list = filter (\<lambda>x. x \<noteq> []) (str_split CHR ''/'' (abspath wd p));
          i = length (commonprefix start_list path_list);
          rel_list = replicate (length start_list - i) ''..'' @ drop i path_list
      in if rel_list = [] then ''.'' else str_join ''/'' rel_list)"

section \<open>The glob matcher used by the examples\<close>

text \<open>
  \<open>Path(rel_path).match(pattern)\<close> and the compiled \<open>.gitignore\<close> spec belong to
  \<open>pathlib\<close> and \<open>pathspec\<close>; the watcher below takes both as fields
  (\<open>path_match\<close>, \<open>gitignore_spec\<close>). The concrete watchers of the examples use
  \<open>pure_path_match\<close>: \<open>PurePosixPath.match\<close> for patterns made of literal
  characters, \<open>*\<close> and \<open>?\<close> (no bracket expressions), which matches the pattern's
  parts against the last parts of the path with \<open>fnmatch.fnmatchcase\<close>.
\<close>

fun fnmatchcase :: "string \<Rightarrow> string \<Rightarrow> bool" where
  "fnmatchcase [] [] = True"
| "fnmatchcase (c # cs) [] = False"
| "fnmatchcase [] (p # ps) = (p = CHR ''*'' \<and> fnmatchcase [] ps)"
| "fnmatchcase (c # cs) (p # ps) =
     (if p = CHR ''*'' then fnmatchcase (c # cs) ps \<or> fnmatchcase cs (p # ps)
      else (p = CHR ''?'' \<or> p = c) \<and> fnmatchcase cs ps)"

definition path_parts :: "string \<Rightarrow> string list" where
  "path_parts p =
     (if startswith p ''/'' then [''/''] else [])
     @ filter (\<lambda>x. x \<noteq> [] \<and> x \<noteq> ''.'') (str_split CHR ''/'' p)"

definition pure_path_match :: "string \<Rightarrow> string \<Rightarrow> bool" where
  "pure_path_match p pattern =
     (let pat_parts = path_parts pattern; parts = path_parts p
      in if pat_parts = [] then False
         else if startswith pattern ''/''
           then startswith p ''/'' \<and> length pat_parts = length parts
                \<and> list_all2 fnmatchcase (tl parts) (tl pat_parts)
         else length pat_parts \<le> length parts
              \<and> list_all2 fnmatchcase (drop (length parts - length pat_parts) parts) pat_parts)"

section \<open>The watcher\<close>

text \<open>
  \<open>FileEditObservation\<close> is the record pushed to the event stream; every push is
  tagged \<open>EventSource.USER\<close>, so the stream is modelled as the list of observations.
\<close>

record Observation =
  path :: string
  prev_exist :: bool
  old_content :: string
  new_content :: string
  content :: string

record FileSystemEvent =
  src_path :: string
  dest_path :: string
  is_directory :: bool

text \<open>
  A \<open>threading.Timer\<close>: the time at which it wakes (\<open>start()\<close> time plus interval), the
  function it then calls with its arguments, and its \<open>finished\<close> flag, which \<open>cancel()\<close>
  sets and which its thread sets after the call.
\<close>

datatype callback = HandleDebouncedChange string | HandleDelayedDelete string string

record Timer =
  deadline :: real
  callback :: callback
  finished :: bool

text \<open>
  The watcher object together with what it reads and writes outside itself. The
  attributes of \<open>FileWatcher\<close> keep their names. \<open>debounce_timers\<close> holds the index of
  each Timer in \<open>timers\<close>, the list of all Timer objects created so far (the delete
  timers of \<open>on_deleted\<close> are in \<open>timers\<close> only, as in the source, where no attribute
  keeps them). \<open>recent_deletes\<close> and \<open>debounce_timers\<close> are association lists in
  insertion order, as Python dictionaries are. The environment is the clock
  (\<open>time.time()\<close>), the working directory, the readable text files (\<open>files\<close>; a path
  not in it fails to open or decode), the directories (\<open>dirs\<close>, for \<open>os.path.isdir\<close>)
  and whether the observer thread is delivering events.
\<close>

record FileWatcher =
  directory :: string
  recursive :: bool
  patterns :: "string list option"
  ignore_patterns :: "string set"
  gitignore_spec :: "string \<Rightarrow> bool"
  path_match :: "string \<Rightarrow> string \<Rightarrow> bool"
  file_contents :: "string \<rightharpoonup> string"
  pending_changes :: "string set"
  debounce_timers :: "(string \<times> nat) list"
  debounce_delay :: real
  use_debouncing :: bool
  recent_deletes :: "(string \<times> string \<times> real) list"
  rename_window :: real
  event_stream :: "Observation list"
  timers :: "Timer list"
  clock :: real
  cwd :: string
  files :: "string \<rightharpoonup> string"
  dirs :: "string set"
  observing :: bool

definition init_ignore_patterns :: "string list option \<Rightarrow> string set" where
  "init_ignore_patterns user_patterns =
     (case user_patterns of None \<Rightarrow> {''.git'', ''.git/*''}
      | Some ps \<Rightarrow> (if ps = [] then {''.git'', ''.git/*''} else {''.git'', ''.git/*''} \<union> set ps))"

definition should_ignore :: "FileWatcher \<Rightarrow> string \<Rightarrow> bool" where
  "should_ignore w p =
     (let rel_path = relpath (cwd w) p (directory w);
          parts = str_split CHR ''/'' rel_path
      in if ''.git'' \<in> set parts then True
         else if \<exists>pattern \<in> ignore_patterns w. path_match w rel_path pattern then True
         else if p \<in> dirs w then gitignore_spec w rel_path \<or> gitignore_spec w (rel_path @ ''/'')
         else gitignore_spec w rel_path)"

definition should_watch :: "FileWatcher \<Rightarrow> string \<Rightarrow> bool" where
  "should_watch w p =
     (case patterns w of None \<Rightarrow> True
      | Some ps \<Rightarrow> (\<exists>pattern \<in> set ps. path_match w (relpath (cwd w) p (directory w)) pattern))"

definition read_file_content :: "FileWatcher \<Rightarrow> string \<Rightarrow> string" where
  "read_file_content w p = (case files w p of Some c \<Rightarrow> c | None \<Rightarrow> [])"

text \<open>The test each handler makes for editor swap and backup files.\<close>

definition swap_or_backup :: "string \<Rightarrow> bool" where
  "swap_or_backup p =
     (endswith p ''.swp'' \<or> endswith p ''.swo'' \<or> endswith p ''~''
      \<or> startswith (basename p) ''4913'')"

definition add_event :: "Observation \<Rightarrow> FileWatcher \<Rightarrow> FileWatcher" where
  "add_event obs w = w\<lparr>event_stream := event_stream w @ [obs]\<rparr>"

definition cancel :: "nat \<Rightarrow> FileWatcher \<Rightarrow> FileWatcher" where
  "cancel i w = w\<lparr>timers := (timers w)[i := (timers w ! i)\<lparr>finished := True\<rparr>]\<rparr>"

definition start_timer :: "real \<Rightarrow> callback \<Rightarrow> FileWatcher \<Rightarrow> FileWatcher" where
  "start_timer interval f w =
     w\<lparr>timers := timers w @ [\<lparr>deadline = clock w + interval, callback = f, finished = False\<rparr>]\<rparr>"

definition start :: "FileWatcher \<Rightarrow> FileWatcher" where
  "start w = w\<lparr>observing := True\<rparr>"

definition stop :: "FileWatcher \<Rightarrow> FileWatcher" where
  "stop w = (fold cancel (map snd (debounce_timers w)) w)\<lparr>observing := False\<rparr>"

definition handle_debounced_change :: "string \<Rightarrow> FileWatcher \<Rightarrow> FileWatcher" where
  "handle_debounced_change p w =
     (if p \<notin> pending_changes w then w
      else let w = w\<lparr>pending_changes := pending_changes w - {p},
                       debounce_timers := AList.delete p (debounce_timers w)\<rparr>
           in if should_ignore w p \<or> \<not> should_watch w p then w
              else if swap_or_backup p then w
              else let rel_path = relpath (cwd w) p (directory w);
                       old = (case file_contents w p of Some c \<Rightarrow> c | None \<Rightarrow> []);
                       new = read_file_content w p
                   in if old \<noteq> new
                      then add_event
                             \<lparr>path = rel_path, prev_exist = True, old_content = old,
                              new_content = new, content = generate_diff old new rel_path\<rparr>
                             (w\<lparr>file_contents := (file_contents w)(p \<mapsto> new)\<rparr>)
                      else w)"

definition schedule_debounced_change :: "string \<Rightarrow> FileWatcher \<Rightarrow> FileWatcher" where
  "schedule_debounced_change p w =
     (let w = (case map_of (debounce_timers w) p of Some i \<Rightarrow> cancel i w | None \<Rightarrow> w);
          i = length (timers w);
          w = start_timer (debounce_delay w) (HandleDebouncedChange p) w
      in w\<lparr>debounce_timers := AList.update p i (debounce_timers w),
            pending_changes := insert p (pending_changes w)\<rparr>)"

definition on_created :: "FileSystemEvent \<Rightarrow> FileWatcher \<Rightarrow> FileWatcher" where
  "on_created event w =
     (if is_directory event then w
      else if swap_or_backup (src_path event) then w
      else if should_ignore w (src_path event) \<or> \<not> should_watch w (src_path event) then w
      else let rel_path = relpath (cwd w) (src_path event) (directory w);
               now = clock w;
               new = read_file_content w (src_path event)
           in case find (\<lambda>(old_path, old, timestamp).
                           now - timestamp \<le> rename_window w \<and> new = old) (recent_deletes w) of
                Some (old_path, old, timestamp) \<Rightarrow>
                  w\<lparr>file_contents := (file_contents w)(src_path event \<mapsto> new),
                    recent_deletes := AList.delete old_path (recent_deletes w)\<rparr>
              | None \<Rightarrow>
                  if use_debouncing w then schedule_debounced_change (src_path event) w
                  else add_event
                         \<lparr>path = rel_path, prev_exist = False, old_content = [],
                          new_content = new, content = generate_diff [] new rel_path\<rparr>
                         (w\<lparr>file_contents := (file_contents w)(src_path event \<mapsto> new)\<rparr>))"

definition on_modified :: "FileSystemEvent \<Rightarrow> FileWatcher \<Rightarrow> FileWatcher" where
  "on_modified event w =
     (if is_directory event then w
      else if swap_or_backup (src_path event) then w
      else if should_ignore w (src_path event) \<or> \<not> should_watch w (src_path event) then w
      else if use_debouncing w then schedule_debounced_change (src_path event) w
      else let rel_path = relpath (cwd w) (src_path event) (directory w);
               old = (case file_contents w (src_path event) of Some c \<Rightarrow> c | None \<Rightarrow> []);
               new = read_file_content w (src_path event)
           in if old \<noteq> new
              then add_event
                     \<lparr>path = rel_path, prev_exist = True, old_content = old,
                      new_content = new, content = generate_diff old new rel_path\<rparr>
                     (w\<lparr>file_contents := (file_contents w)(src_path event \<mapsto> new)\<rparr>)
              else w)"

text \<open>
  The block that \<open>on_deleted\<close> and \<open>on_moved\<close> share: cancel the pending change of the
  source path, if it has a timer.
\<close>

definition cancel_pending :: "string \<Rightarrow> FileWatcher \<Rightarrow> FileWatcher" where
  "cancel_pending p w =
     (case map_of (debounce_timers w) p of
        Some i \<Rightarrow> (cancel i w)\<lparr>debounce_timers := AList.delete p (debounce_timers w),
                                pending_changes := pending_changes w - {p}\<rparr>
      | None \<Rightarrow> w)"

definition on_deleted :: "FileSystemEvent \<Rightarrow> FileWatcher \<Rightarrow> FileWatcher" where
  "on_deleted event w =
     (if is_directory event then w
      else if swap_or_backup (src_path event) then w
      else let w = cancel_pending (src_path event) w
           in if should_ignore w (src_path event) \<or> \<not> should_watch w (src_path event) then w
              else let old = (case file_contents w (src_path event) of Some c \<Rightarrow> c | None \<Rightarrow> []);
                       w = w\<lparr>file_contents := (file_contents w)(src_path event := None)\<rparr>
                   in if use_debouncing w
                      then start_timer (rename_window w) (HandleDelayedDelete (src_path event) old)
                             (w\<lparr>recent_deletes :=
                                   AList.update (src_path event) (old, clock w) (recent_deletes w)\<rparr>)
                      else let rel_path = relpath (cwd w) (src_path event) (directory w)
                           in add_event
                                \<lparr>path = rel_path, prev_exist = True, old_content = old,
                                 new_content = [], content = generate_diff old [] rel_path\<rparr> w)"

definition handle_delayed_delete :: "string \<Rightarrow> string \<Rightarrow> FileWatcher \<Rightarrow> FileWatcher" where
  "handle_delayed_delete p old w =
     (if p \<in> fst ` set (recent_deletes w)
      then let rel_path = relpath (cwd w) p (directory w);
               w = add_event
                     \<lparr>path = rel_path, prev_exist = True, old_content = old,
                      new_content = [], content = generate_diff old [] rel_path\<rparr> w
           in w\<lparr>recent_deletes := AList.delete p (recent_deletes w)\<rparr>
      else w)"

definition on_moved :: "FileSystemEvent \<Rightarrow> FileWatcher \<Rightarrow> FileWatcher" where
  "on_moved event w =
     (if is_directory event then w
      else let w = cancel_pending (src_path event) w
           in if swap_or_backup (src_path event) \<or> swap_or_backup (dest_path event) then w
              else if should_ignore w (src_path event) \<or> \<not> should_watch w (src_path event) then w
              else let src_rel_path = relpath (cwd w) (src_path event) (directory w);
                       old = (case file_contents w (src_path event) of Some c \<Rightarrow> c | None \<Rightarrow> []);
                       w = add_event
                             \<lparr>path = src_rel_path, prev_exist = True, old_content = old,
                              new_content = [], content = generate_diff old [] src_rel_path\<rparr> w;
                       w = w\<lparr>file_contents := (file_contents w)(src_path event := None)\<rparr>
                   in if \<not> should_ignore w (dest_path event) \<and> should_watch w (dest_path event)
                      then let dest_rel_path = relpath (cwd w) (dest_path event) (directory w);
                               w = w\<lparr>file_contents := (file_contents w)(dest_path event \<mapsto> old)\<rparr>
                           in add_event
                                \<lparr>path = dest_rel_path, prev_exist = False, old_content = [],
                                 new_content = old, content = generate_diff [] old dest_rel_path\<rparr> w
                      else w)"

section \<open>Delivery of events and timers\<close>

text \<open>
  The observer thread calls one handler per raw event while it is running. A Timer
  thread wakes at its deadline and, unless the Timer is finished, calls its function
  and then sets \<open>finished\<close> (\<open>threading.Timer.run\<close>).
\<close>

datatype raw_event =
  Created FileSystemEvent | Modified FileSystemEvent | Deleted FileSystemEvent | Moved FileSystemEvent

definition dispatch :: "raw_event \<Rightarrow> FileWatcher \<Rightarrow> FileWatcher" where
  "dispatch e w =
     (if \<not> observing w then w
      else case e of Created ev \<Rightarrow> on_created ev w | Modified ev \<Rightarrow> on_modified ev w
           | Deleted ev \<Rightarrow> on_deleted ev w | Moved ev \<Rightarrow> on_moved ev w)"

definition run_callback :: "callback \<Rightarrow> FileWatcher \<Rightarrow> FileWatcher" where
  "run_callback f w =
     (case f of HandleDebouncedChange p \<Rightarrow> handle_debounced_change p w
      | HandleDelayedDelete p old \<Rightarrow> handle_delayed_delete p old w)"

definition fire :: "nat \<Rightarrow> FileWatcher \<Rightarrow> FileWatcher" where
  "fire i w =
     (if i < length (timers w) \<and> \<not> finished (timers w ! i)
      then cancel i (run_callback (callback (timers w ! i)) w)
      else w)"

text \<open>
  A timeline is a list of timed steps with non-decreasing times. Before the step at time
  \<open>t\<close>, the Timers whose deadline is before \<open>t\<close> fire, earliest deadline first (Timers
  with one deadline in the order of their creation). \<open>settle\<close> is the silence after the
  last step: every Timer that is still running fires.
\<close>

datatype step =
  Raw raw_event | WriteFile string string | RemoveFile string | Start | Stop

definition due :: "real \<Rightarrow> FileWatcher \<Rightarrow> nat list" where
  "due t w =
     sort_key (\<lambda>i. deadline (timers w ! i))
       (filter (\<lambda>i. \<not> finished (timers w ! i) \<and> deadline (timers w ! i) < t) [0..<length (timers w)])"

definition advance :: "real \<Rightarrow> FileWatcher \<Rightarrow> FileWatcher" where
  "advance t w = (fold fire (due t w) w)\<lparr>clock := t\<rparr>"

definition do_step :: "step \<Rightarrow> FileWatcher \<Rightarrow> FileWatcher" where
  "do_step s w =
     (case s of Raw e \<Rightarrow> dispatch e w
      | WriteFile p c \<Rightarrow> w\<lparr>files := (files w)(p \<mapsto> c)\<rparr>
      | RemoveFile p \<Rightarrow> w\<lparr>files := (files w)(p := None)\<rparr>
      | Start \<Rightarrow> start w
      | Stop \<Rightarrow> stop w)"

fun run :: "(real \<times> step) list \<Rightarrow> FileWatcher \<Rightarrow> FileWatcher" where
  "run [] w = w"
| "run ((t, s) # rest) w = run rest (do_step s (advance t w))"

definition settle :: "FileWatcher \<Rightarrow> FileWatcher" where
  "settle w =
     fold fire
       (sort_key (\<lambda>i. deadline (timers w ! i))
          (filter (\<lambda>i. \<not> finished (timers w ! i)) [0..<length (timers w)])) w"


section \<open>Example watchers\<close>

text \<open>
  \<open>example\<close> is a watcher in debounced mode on the directory \<open>/w\<close>, with no include
  patterns, an empty \<open>.gitignore\<close> and one tracked file \<open>/w/a.txt\<close> holding one line.
  \<open>event_at p\<close> is the file event for the path \<open>p\<close>. \<open>dir_only_rule name\<close> is the
  spec compiled from the single \<open>.gitignore\<close> line \<open>name/\<close>, which matches what lies
  under a directory of that name, and the name itself only when a separator follows it.
\<close>

definition event_at :: "string \<Rightarrow> FileSystemEvent" where
  "event_at p = \<lparr>src_path = p, dest_path = [], is_directory = False\<rparr>"

definition dir_only_rule :: "string \<Rightarrow> string \<Rightarrow> bool" where
  "dir_only_rule name rel = (name \<in> set (butlast (str_split CHR ''/'' rel)))"

definition example :: FileWatcher where
  "example =
     \<lparr>directory = ''/w'', recursive = True, patterns = None,
      ignore_patterns = init_ignore_patterns None, gitignore_spec = (\<lambda>_. False),
      path_match = pure_path_match,
      file_contents = [''/w/a.txt'' \<mapsto> [CHR ''x'', CHR 0x0A]], pending_changes = {},
      debounce_timers = [], debounce_delay = 1/10, use_debouncing = True,
      recent_deletes = [], rename_window = 1/10, event_stream = [], timers = [],
      clock = 0, cwd = ''/'', files = [''/w/a.txt'' \<mapsto> [CHR ''x'', CHR 0x0A]],
      dirs = {''/w''}, observing = True\<rparr>"


text \<open>
  Three states the example watcher reaches: after a create event for a new file
  \<open>/w/new.txt\<close>, after a modify event for \<open>/w/a.txt\<close>, and after a delete event for
  \<open>/w/a.txt\<close> followed by \<open>stop()\<close> half a rename window later.
\<close>

definition created_new :: FileWatcher where
  "created_new = run [(0, WriteFile ''/w/new.txt'' ''hi''), (0, Raw (Created (event_at ''/w/new.txt'')))] example"

definition modified_a :: FileWatcher where
  "modified_a = run [(0, Raw (Modified (event_at ''/w/a.txt'')))] example"

definition deleted_then_stopped :: FileWatcher where
  "deleted_then_stopped = run [(0, Raw (Deleted (event_at ''/w/a.txt''))), (1/20, Stop)] example"


section \<open>Scenarios\<close>









section \<open>The ignore policy\<close>

lemma abspath_isabs: "isabs p \<Longrightarrow> abspath wd p = normpath p"
  by (simp add: abspath_def)

lemma relpath_isabs: "isabs p \<Longrightarrow> isabs d \<Longrightarrow> relpath wd p d = relpath wd' p d"
  by (simp add: relpath_def abspath_isabs)

text \<open>
  C7, as amended. For an absolute path and an absolute watched directory,
  \<open>should_watch\<close> is a function of the static configuration and the path alone, and
  \<open>should_ignore\<close> is a function of the static configuration, the path and one fact of
  the file system: whether the path is a directory (\<open>os.path.isdir\<close>). Neither
  reads the cache, the pending set, the timers, the recent deletes, the clock, the
  working directory or any file's content, and neither changes any state (both return
  a boolean only).
\<close>

theorem filters_pure:
  assumes "directory w' = directory w" "patterns w' = patterns w"
    "ignore_patterns w' = ignore_patterns w" "gitignore_spec w' = gitignore_spec w"
    "path_match w' = path_match w"
    and "isabs p" "isabs (directory w)"
    and "(p \<in> dirs w') = (p \<in> dirs w)"
  shows "should_ignore w' p = should_ignore w p \<and> should_watch w' p = should_watch w p"
proof -
  have "relpath (cwd w') p (directory w') = relpath (cwd w) p (directory w)"
    using assms relpath_isabs[of p "directory w" "cwd w'" "cwd w"] by simp
  then show ?thesis
    using assms by (simp add: should_ignore_def should_watch_def split: option.splits)
qed

text \<open>
  Witness for C7: the example watcher and a copy of it with another working directory,
  no files, an empty cache, a later clock and a pending path give the same answers for
  \<open>/w/a.txt\<close>.
\<close>

theorem filters_pure_witness:
  "should_ignore (example\<lparr>cwd := ''/tmp'', files := Map.empty, file_contents := Map.empty,
        clock := 5, pending_changes := {''/w/a.txt''}\<rparr>) ''/w/a.txt''
     = should_ignore example ''/w/a.txt''
   \<and> should_watch (example\<lparr>cwd := ''/tmp'', files := Map.empty, file_contents := Map.empty,
        clock := 5, pending_changes := {''/w/a.txt''}\<rparr>) ''/w/a.txt''
     = should_watch example ''/w/a.txt''"
  using filters_pure[of "example\<lparr>cwd := ''/tmp'', files := Map.empty,
        file_contents := Map.empty, clock := 5, pending_changes := {''/w/a.txt''}\<rparr>"
      example "''/w/a.txt''"]
  by (simp add: isabs_def startswith_def example_def)

text \<open>
  Counterexample for C7 as stated: with the \<open>.gitignore\<close> line \<open>build/\<close>, the same
  configuration and the same path \<open>/w/build\<close> are ignored when \<open>/w/build\<close> is a
  directory on disk and not ignored when it is not. \<open>should_ignore\<close> depends on the
  file system.
\<close>

theorem should_ignore_reads_isdir:
  "should_ignore (example\<lparr>gitignore_spec := dir_only_rule ''build'',
        dirs := {''/w'', ''/w/build''}\<rparr>) ''/w/build''
   \<and> \<not> should_ignore (example\<lparr>gitignore_spec := dir_only_rule ''build'',
        dirs := {''/w''}\<rparr>) ''/w/build''"
  by code_simp

text \<open>
  C9, as amended. A path whose path relative to the watched directory has a segment
  equal to \<open>.git\<close> is ignored, whatever the include patterns are, and a create or
  modify event for it changes nothing.
\<close>

theorem git_segment_ignored:
  assumes "''.git'' \<in> set (str_split CHR ''/'' (relpath (cwd w) p (directory w)))"
    and "src_path event = p"
  shows "should_ignore w p \<and> on_created event w = w \<and> on_modified event w = w"
proof -
  have "should_ignore w p"
    using assms(1) by (simp add: should_ignore_def Let_def)
  then show ?thesis
    using assms(2) by (simp add: on_created_def on_modified_def)
qed

text \<open>
  Witness for C9: \<open>/w/sub/.git/config\<close> under the example watcher with the include
  pattern \<open>*\<close>.
\<close>

theorem git_segment_ignored_witness:
  "''.git'' \<in> set (str_split CHR ''/''
       (relpath (cwd example) ''/w/sub/.git/config'' (directory example)))
   \<and> should_ignore (example\<lparr>patterns := Some [''*'']\<rparr>) ''/w/sub/.git/config''
   \<and> on_modified (event_at ''/w/sub/.git/config'') (example\<lparr>patterns := Some [''*'']\<rparr>)
       = example\<lparr>patterns := Some [''*'']\<rparr>"
proof -
  have h: "''.git'' \<in> set (str_split CHR ''/''
      (relpath (cwd (example\<lparr>patterns := Some [''*'']\<rparr>)) ''/w/sub/.git/config''
         (directory (example\<lparr>patterns := Some [''*'']\<rparr>))))"
    by code_simp
  have e: "src_path (event_at ''/w/sub/.git/config'') = ''/w/sub/.git/config''"
    by (simp add: event_at_def)
  from git_segment_ignored[OF h e] h show ?thesis by simp
qed

text \<open>
  Counterexample for C9 as stated: the path \<open>/repo/.git/hooks/x\<close> has the segment
  \<open>.git\<close>, and a watcher on the directory \<open>/repo/.git/hooks\<close> does not ignore it: the
  segments tested are those of the relative path, here \<open>x\<close>.
\<close>

theorem git_segment_above_root:
  "''.git'' \<in> set (str_split CHR ''/'' ''/repo/.git/hooks/x'')
   \<and> \<not> should_ignore (example\<lparr>directory := ''/repo/.git/hooks''\<rparr>) ''/repo/.git/hooks/x''"
  by code_simp


section \<open>Frame lemmas\<close>

text \<open>The filters and the file read look at the configuration and the file system only.\<close>

lemma should_ignore_update [simp]:
  "should_ignore (file_contents_update f1 w) p = should_ignore w p"
  "should_ignore (pending_changes_update f2 w) p = should_ignore w p"
  "should_ignore (debounce_timers_update f3 w) p = should_ignore w p"
  "should_ignore (recent_deletes_update f4 w) p = should_ignore w p"
  "should_ignore (event_stream_update f5 w) p = should_ignore w p"
  "should_ignore (timers_update f6 w) p = should_ignore w p"
  "should_ignore (clock_update f7 w) p = should_ignore w p"
  "should_ignore (files_update f8 w) p = should_ignore w p"
  "should_ignore (observing_update f9 w) p = should_ignore w p"
  by (simp_all add: should_ignore_def)

lemma should_watch_update [simp]:
  "should_watch (file_contents_update f1 w) p = should_watch w p"
  "should_watch (pending_changes_update f2 w) p = should_watch w p"
  "should_watch (debounce_timers_update f3 w) p = should_watch w p"
  "should_watch (recent_deletes_update f4 w) p = should_watch w p"
  "should_watch (event_stream_update f5 w) p = should_watch w p"
  "should_watch (timers_update f6 w) p = should_watch w p"
  "should_watch (clock_update f7 w) p = should_watch w p"
  "should_watch (files_update f8 w) p = should_watch w p"
  "should_watch (observing_update f9 w) p = should_watch w p"
  "should_watch (dirs_update f10 w) p = should_watch w p"
  by (simp_all add: should_watch_def split: option.splits)

lemma read_file_content_update [simp]:
  "read_file_content (file_contents_update f1 w) p = read_file_content w p"
  "read_file_content (pending_changes_update f2 w) p = read_file_content w p"
  "read_file_content (debounce_timers_update f3 w) p = read_file_content w p"
  "read_file_content (recent_deletes_update f4 w) p = read_file_content w p"
  "read_file_content (event_stream_update f5 w) p = read_file_content w p"
  "read_file_content (timers_update f6 w) p = read_file_content w p"
  "read_file_content (clock_update f7 w) p = read_file_content w p"
  "read_file_content (observing_update f9 w) p = read_file_content w p"
  by (simp_all add: read_file_content_def)

section \<open>What the handlers emit\<close>

text \<open>
  C10. Every observation that the debounced commit handler emits has \<open>prev_exist\<close>
  true, also when the path is absent from the cache: a pending path that passes the
  filters, has no cache entry and holds non-empty content on disk is reported with
  \<open>prev_exist = True\<close> and empty old content.
\<close>

theorem debounced_commit_prev_exist:
  "(\<exists>obs. event_stream (handle_debounced_change p w) = event_stream w @ obs
           \<and> (\<forall>ob \<in> set obs. prev_exist ob))
   \<and> (p \<in> pending_changes w \<and> \<not> should_ignore w p \<and> should_watch w p \<and> \<not> swap_or_backup p
        \<and> file_contents w p = None \<and> read_file_content w p \<noteq> []
      \<longrightarrow> event_stream (handle_debounced_change p w)
            = event_stream w @
              [\<lparr>path = relpath (cwd w) p (directory w), prev_exist = True, old_content = [],
                new_content = read_file_content w p,
                content = generate_diff [] (read_file_content w p) (relpath (cwd w) p (directory w))\<rparr>])"
  by (auto simp: handle_debounced_change_def Let_def add_event_def)

text \<open>
  Witness for C10: the file \<open>/w/new.txt\<close>, first seen through a debounced create event.
\<close>

theorem debounced_commit_prev_exist_witness:
  "file_contents created_new ''/w/new.txt'' = None
   \<and> event_stream created_new = []
   \<and> map prev_exist (event_stream (handle_debounced_change ''/w/new.txt'' created_new)) = [True]
   \<and> map old_content (event_stream (handle_debounced_change ''/w/new.txt'' created_new)) = [[]]
   \<and> map new_content (event_stream (handle_debounced_change ''/w/new.txt'' created_new)) = [''hi'']"
proof -
  have h: "''/w/new.txt'' \<in> pending_changes created_new \<and> \<not> should_ignore created_new ''/w/new.txt''
      \<and> should_watch created_new ''/w/new.txt'' \<and> \<not> swap_or_backup ''/w/new.txt''
      \<and> file_contents created_new ''/w/new.txt'' = None \<and> read_file_content created_new ''/w/new.txt'' \<noteq> []"
    by code_simp
  have e: "event_stream created_new = []" by code_simp
  have r: "read_file_content created_new ''/w/new.txt'' = ''hi''" by code_simp
  from debounced_commit_prev_exist[of "''/w/new.txt''" created_new, THEN conjunct2, rule_format, OF h]
  show ?thesis using h e r by simp
qed

text \<open>
  C4, as amended. In the debounced commit and in the modify handler, when the cached
  content of the path (empty if it has none) equals the content read from disk, no
  observation is emitted and the cache is left as it is.
\<close>

theorem unchanged_content_not_emitted:
  assumes "(case file_contents w p of Some c \<Rightarrow> c | None \<Rightarrow> []) = read_file_content w p"
    and "src_path event = p"
  shows "event_stream (handle_debounced_change p w) = event_stream w
       \<and> file_contents (handle_debounced_change p w) = file_contents w
       \<and> event_stream (on_modified event w) = event_stream w
       \<and> file_contents (on_modified event w) = file_contents w"
  using assms
  by (auto simp: handle_debounced_change_def on_modified_def schedule_debounced_change_def Let_def
      add_event_def cancel_def start_timer_def split: option.splits)

text \<open>
  Witness for C4: \<open>/w/a.txt\<close> unchanged on disk, at the debounced commit of a pending
  modify event and at a modify event in non-debounced mode.
\<close>

theorem unchanged_content_not_emitted_witness:
  "''/w/a.txt'' \<in> pending_changes modified_a
   \<and> event_stream (handle_debounced_change ''/w/a.txt'' modified_a) = event_stream modified_a
   \<and> event_stream (on_modified (event_at ''/w/a.txt'') (example\<lparr>use_debouncing := False\<rparr>))
       = event_stream (example\<lparr>use_debouncing := False\<rparr>)"
proof -
  have h1: "(case file_contents modified_a ''/w/a.txt'' of Some c \<Rightarrow> c | None \<Rightarrow> [])
      = read_file_content modified_a ''/w/a.txt''"
    by code_simp
  have h2: "(case file_contents (example\<lparr>use_debouncing := False\<rparr>) ''/w/a.txt'' of Some c \<Rightarrow> c | None \<Rightarrow> [])
      = read_file_content (example\<lparr>use_debouncing := False\<rparr>) ''/w/a.txt''"
    by code_simp
  have e: "src_path (event_at ''/w/a.txt'') = ''/w/a.txt''" by (simp add: event_at_def)
  have p: "''/w/a.txt'' \<in> pending_changes modified_a" by code_simp
  from unchanged_content_not_emitted[OF h1 e] unchanged_content_not_emitted[OF h2 e] p
  show ?thesis by simp
qed

text \<open>
  Counterexample for C4 as stated: in non-debounced mode the create event of an empty
  file emits an observation whose old and new content are both empty.
\<close>

theorem empty_create_emitted:
  "event_stream (on_created (event_at ''/w/e.txt'')
      (example\<lparr>use_debouncing := False, files := (files example)(''/w/e.txt'' \<mapsto> [])\<rparr>))
   = [\<lparr>path = ''e.txt'', prev_exist = False, old_content = [], new_content = [], content = []\<rparr>]"
  by code_simp

text \<open>
  The delete finalization and the move handler emit without comparing contents too: the
  deletion and the move of a tracked empty file are reported with equal contents.
\<close>

lemma empty_delete_emitted:
  "event_stream (settle (run [(0, Raw (Deleted (event_at ''/w/e.txt'')))]
      (example\<lparr>file_contents := (file_contents example)(''/w/e.txt'' \<mapsto> [])\<rparr>)))
   = [\<lparr>path = ''e.txt'', prev_exist = True, old_content = [], new_content = [], content = []\<rparr>]"
  by code_simp

lemma empty_move_emitted:
  "event_stream (on_moved \<lparr>src_path = ''/w/e.txt'', dest_path = ''/w/f.txt'', is_directory = False\<rparr>
      (example\<lparr>file_contents := (file_contents example)(''/w/e.txt'' \<mapsto> [])\<rparr>))
   = [\<lparr>path = ''e.txt'', prev_exist = True, old_content = [], new_content = [], content = []\<rparr>,
      \<lparr>path = ''f.txt'', prev_exist = False, old_content = [], new_content = [], content = []\<rparr>]"
  by code_simp

section \<open>The transient-file filter\<close>

text \<open>
  Create, modify and delete events for a swap or backup path return before anything is
  changed.
\<close>

lemma transient_event_discarded:
  assumes "swap_or_backup (src_path event)"
  shows "on_created event w = w \<and> on_modified event w = w \<and> on_deleted event w = w"
  using assms by (simp add: on_created_def on_modified_def on_deleted_def)

text \<open>
  C8 at its failing input. \<open>on_moved\<close> cancels the pending change of the source path
  before it tests the two paths: the move of \<open>/w/a.txt\<close>, which has a pending change,
  to the backup name \<open>/w/a.txt~\<close> empties the pending set and the timer table and
  cancels the Timer.
\<close>

theorem moved_to_backup_cancels_pending:
  "swap_or_backup ''/w/a.txt~''
   \<and> pending_changes modified_a = {''/w/a.txt''}
   \<and> debounce_timers modified_a = [(''/w/a.txt'', 0)]
   \<and> map finished (timers modified_a) = [False]
   \<and> pending_changes (on_moved \<lparr>src_path = ''/w/a.txt'', dest_path = ''/w/a.txt~'', is_directory = False\<rparr>
         modified_a) = {}
   \<and> debounce_timers (on_moved \<lparr>src_path = ''/w/a.txt'', dest_path = ''/w/a.txt~'', is_directory = False\<rparr>
         modified_a) = []
   \<and> map finished (timers (on_moved \<lparr>src_path = ''/w/a.txt'', dest_path = ''/w/a.txt~'', is_directory = False\<rparr>
         modified_a)) = [True]"
  by code_simp

section \<open>Stopping\<close>

text \<open>
  C3 at its failing input. \<open>stop()\<close> cancels the Timers of \<open>debounce_timers\<close> only.
  After a delete event and \<open>stop()\<close>, the delete Timer is still running; when it fires
  it emits the deletion and removes the entry of \<open>recent_deletes\<close>.
\<close>

theorem stop_leaves_delete_timer:
  "observing deleted_then_stopped = False
   \<and> event_stream deleted_then_stopped = []
   \<and> map fst (recent_deletes deleted_then_stopped) = [''/w/a.txt'']
   \<and> map finished (timers deleted_then_stopped) = [False]
   \<and> event_stream (settle deleted_then_stopped)
       = [\<lparr>path = ''a.txt'', prev_exist = True, old_content = [CHR ''x'', CHR 0x0A],
           new_content = [], content = [CHR ''-'', CHR ''x'', CHR 0x0A]\<rparr>]
   \<and> recent_deletes (settle deleted_then_stopped) = []"
  by code_simp


section \<open>Timers\<close>


lemma filter_upt_none: "(\<forall>i<n. \<not> P i) \<Longrightarrow> filter P [0..<n] = []"
  by (induction n) auto

lemma filter_upt_last: "(\<forall>i<n. \<not> P i) \<Longrightarrow> P n \<Longrightarrow> filter P [0..<Suc n] = [n]"
  by (simp add: filter_upt_none)



lemma all_finished_nth: "(\<forall>x\<in>set ts. finished x) \<Longrightarrow> i < length ts \<Longrightarrow> finished (ts ! i)"
  by simp

section \<open>Debouncing\<close>











section \<open>Delete followed by create\<close>

















lemma handle_debounced_change_timers [simp]:
  "handle_debounced_change p (timers_update f w) = timers_update f (handle_debounced_change p w)"
  by (simp add: handle_debounced_change_def Let_def add_event_def)

lemma handle_delayed_delete_timers [simp]:
  "handle_delayed_delete p old (timers_update f w) = timers_update f (handle_delayed_delete p old w)"
  by (simp add: handle_delayed_delete_def Let_def add_event_def)

lemma timers_handle_debounced_change [simp]:
  "timers (handle_debounced_change p w) = timers w"
  "recent_deletes (handle_debounced_change p w) = recent_deletes w"
  by (simp_all add: handle_debounced_change_def Let_def add_event_def)

lemma timers_handle_delayed_delete [simp]:
  "timers (handle_delayed_delete p old w) = timers w"
  by (simp_all add: handle_delayed_delete_def Let_def add_event_def)









section \<open>Delete followed by the create of another content\<close>













section \<open>The diff body\<close>













lemma slice_self [simp]: "slice xs i i = []"
  by (simp add: slice_def)





















text \<open>No function of the old content and the body returns the new content for all pairs.\<close>

lemma no_patch_function_for_bodies:
  "\<not> (\<exists>apply_body. \<forall>old new. apply_body old (generate_diff old new ''p'') = new)"
proof
  assume "\<exists>apply_body. \<forall>old new. apply_body old (generate_diff old new ''p'') = new"
  then obtain f where f: "\<And>old new. f old (generate_diff old new ''p'') = new" by blast
  let ?old = "[CHR ''a'', CHR 0x0A, CHR ''b'', CHR 0x0A]"
  let ?n1 = "[CHR ''x'', CHR 0x0A, CHR ''a'', CHR 0x0A, CHR ''b'', CHR 0x0A]"
  let ?n2 = "[CHR ''a'', CHR 0x0A, CHR ''x'', CHR 0x0A, CHR ''b'', CHR 0x0A]"
  have e: "generate_diff ?old ?n1 ''p'' = generate_diff ?old ?n2 ''p''" by code_simp
  have "?n1 = f ?old (generate_diff ?old ?n1 ''p'')" using f by simp
  also have "\<dots> = ?n2" unfolding e using f by simp
  finally show False by simp
qed

end
